theory Spec2Isabelle
  imports Complex_Main "HOL-Library.Signed_Division"
begin

section \<open>JavaScript strings and numbers\<close>

text \<open>
  A JavaScript string is a sequence of UTF-16 code units. The separators the index parser
  recognises lie outside ASCII, so a string is modelled as the list of its code units, each
  a natural number. \<open>js\<close> embeds an ASCII literal.

  JavaScript numbers are IEEE doubles. Integer-valued quantities (indices, column counts,
  pixel sizes) are modelled as \<open>int\<close>, quotients as exact rationals or reals; rounding of
  doubles beyond \<open>2^53\<close> is not modelled.
\<close>

type_synonym jsstring = "nat list"

definition js :: "string \<Rightarrow> jsstring" where
  "js s = map of_char s"

text \<open>The class \<open>\s\<close> of a JavaScript regular expression, which is also what \<open>trim\<close>
  and \<open>parseInt\<close> strip: WhiteSpace and LineTerminator code points.\<close>

definition isWhiteSpace :: "nat \<Rightarrow> bool" where
  "isWhiteSpace c \<longleftrightarrow>
     c = 9 \<or> c = 10 \<or> c = 11 \<or> c = 12 \<or> c = 13 \<or> c = 32 \<or> c = 160 \<or> c = 5760
     \<or> (8192 \<le> c \<and> c \<le> 8202) \<or> c = 8232 \<or> c = 8233 \<or> c = 8239 \<or> c = 8287
     \<or> c = 12288 \<or> c = 65279"

text \<open>\<open>String.prototype.trim\<close>.\<close>

definition trim :: "jsstring \<Rightarrow> jsstring" where
  "trim s = rev (dropWhile isWhiteSpace (rev (dropWhile isWhiteSpace s)))"

text \<open>Value of a code unit as a digit of the given radix (\<open>0-9\<close>, \<open>a-z\<close>, \<open>A-Z\<close>).\<close>

definition digitValue :: "nat \<Rightarrow> nat \<Rightarrow> nat option" where
  "digitValue radix c =
     (let v = (if 48 \<le> c \<and> c \<le> 57 then Some (c - 48)
               else if 97 \<le> c \<and> c \<le> 122 then Some (c - 87)
               else if 65 \<le> c \<and> c \<le> 90 then Some (c - 55)
               else None)
      in case v of None \<Rightarrow> None | Some d \<Rightarrow> if d < radix then Some d else None)"

text \<open>Reads the longest prefix of digits, most significant first; \<open>acc\<close> is the value read
  so far and \<open>seen\<close> says whether any digit has been read.\<close>

fun readDigits :: "nat \<Rightarrow> nat \<Rightarrow> bool \<Rightarrow> jsstring \<Rightarrow> nat option" where
  "readDigits radix acc seen [] = (if seen then Some acc else None)"
| "readDigits radix acc seen (c # cs) =
     (case digitValue radix c of
        None \<Rightarrow> (if seen then Some acc else None)
      | Some d \<Rightarrow> readDigits radix (acc * radix + d) True cs)"

text \<open>
  \<open>parseInt(string)\<close> with no radix argument (ECMAScript 19.2.5): leading white space is
  skipped, one sign is read, a \<open>0x\<close>/\<open>0X\<close> prefix selects radix 16, and the longest prefix of
  digits is the value; anything after it is ignored. \<open>None\<close> is \<open>NaN\<close>.
\<close>

definition parseInt :: "jsstring \<Rightarrow> int option" where
  "parseInt str =
     (let s = dropWhile isWhiteSpace str;
          sign = (if s \<noteq> [] \<and> hd s = 45 then - 1 else (1::int));
          s1 = (if s \<noteq> [] \<and> (hd s = 43 \<or> hd s = 45) then tl s else s);
          hex = (length s1 \<ge> 2 \<and> hd s1 = 48 \<and> (hd (tl s1) = 120 \<or> hd (tl s1) = 88));
          radix = (if hex then 16 else 10);
          s2 = (if hex then drop 2 s1 else s1)
      in case readDigits radix 0 False s2 of
           None \<Rightarrow> None
         | Some n \<Rightarrow> Some (sign * int n))"

section \<open>Index parser\<close>

text \<open>The separator class \<open>[,\<dots>\s]\<close> of \<open>parseMaskIndices\<close>: the comma, the full-width comma
  U+FF0C, the ideographic comma U+3001 and white space.\<close>

definition isSeparator :: "nat \<Rightarrow> bool" where
  "isSeparator c \<longleftrightarrow> c = 44 \<or> c = 65292 \<or> c = 12289 \<or> isWhiteSpace c"

text \<open>
  \<open>input.split(/[,\<dots>\s]+/)\<close>: the pieces between maximal runs of separators. \<open>cur\<close> is the
  piece being read, \<open>inSep\<close> says whether the previous code unit was a separator. A leading
  or trailing separator run yields an empty first or last piece, and the empty input yields
  one empty piece, as in JavaScript.
\<close>

fun splitSeparators :: "jsstring \<Rightarrow> bool \<Rightarrow> jsstring \<Rightarrow> jsstring list" where
  "splitSeparators cur inSep [] = [cur]"
| "splitSeparators cur inSep (c # cs) =
     (if isSeparator c
      then (if inSep then splitSeparators [] True cs else cur # splitSeparators [] True cs)
      else splitSeparators (cur @ [c]) False cs)"

text \<open>\<open>part.replace(/[~\<dots>]/g, '-')\<close>: the tilde, the em dash U+2014 and the en dash U+2013
  become the hyphen.\<close>

definition normalizeDashes :: "jsstring \<Rightarrow> jsstring" where
  "normalizeDashes s = map (\<lambda>c. if c = 126 \<or> c = 8212 \<or> c = 8211 then 45 else c) s"

text \<open>\<open>standardPart.split('-')\<close>.\<close>

fun splitHyphen :: "jsstring \<Rightarrow> jsstring \<Rightarrow> jsstring list" where
  "splitHyphen cur [] = [cur]"
| "splitHyphen cur (c # cs) =
     (if c = 45 then cur # splitHyphen [] cs else splitHyphen (cur @ [c]) cs)"

text \<open>The body of the \<open>forEach\<close> callback: the indices one piece contributes.\<close>

definition partIndices :: "jsstring \<Rightarrow> int list" where
  "partIndices part0 =
     (let part = trim part0 in
      if part = [] then []
      else
        let standardPart = normalizeDashes part in
        if 45 \<in> set standardPart then
          (let rangeParts = splitHyphen [] standardPart in
           if length rangeParts = 2 then
             (case (parseInt (rangeParts ! 0), parseInt (rangeParts ! 1)) of
                (Some s, Some e) \<Rightarrow> [min s e ..  max s e]
              | _ \<Rightarrow> [])
           else [])
        else
          (case parseInt standardPart of Some num \<Rightarrow> [num] | None \<Rightarrow> []))"

definition parseMaskIndices :: "jsstring \<Rightarrow> int list" where
  "parseMaskIndices input = concat (map partIndices (splitSeparators [] False input))"

text \<open>\<open>Number.prototype.toString\<close> on a non-negative integer: its decimal digits.\<close>

fun numberToString :: "nat \<Rightarrow> jsstring" where
  "numberToString n =
     (if n < 10 then [48 + n] else numberToString (n div 10) @ [48 + n mod 10])"

section \<open>Data model\<close>

text \<open>
  The repository holds two variants of the engine. \<open>puzzle-ultimate\<close> consists of
  \<open>App.tsx\<close> (\<open>startGeneration\<close>, \<open>removeDuplicates\<close>, \<open>handleDownload\<close>) and a canvas
  service (\<open>drawAsync\<close>, limits 12000 and 16000). The ikko variant consists of its own
  \<open>App.tsx\<close> (\<open>generate\<close>) and \<open>utils/canvasUtils.ts\<close> (\<open>drawAsync\<close>,
  \<open>calculateCellDimensions\<close>, limit 8192); its definitions carry the suffix \<open>_ikko\<close>.
\<close>

text \<open>\<open>ImageItem\<close>. The \<open>File\<close> payload is only ever handed to the image decoder, which the
  model takes as a function from items to decode results.\<close>

record ImageItem =
  item_id :: jsstring
  url :: jsstring
  name :: jsstring
  size_bytes :: nat

datatype mask_mode = ModeLine | ModeImage

datatype line_style = Cross | Slash

text \<open>The settings fields both variants share. Colours, fonts, sticker percentages and the
  overlay blend mode only select pixels inside a cell and are left out.\<close>

record LayoutSettings =
  cols :: int
  groupRows :: int
  aspectRatio :: rat
  gap :: int
  showNum :: bool
  startNumber :: int
  maskMode :: mask_mode
  lineStyle :: line_style

text \<open>\<open>AppSettings\<close> of \<open>puzzle-ultimate\<close>.\<close>

record AppSettings = LayoutSettings +
  maskIndices :: jsstring
  quality :: int
  qualityPreset :: jsstring

text \<open>\<open>AppSettings\<close> of the ikko variant.\<close>

record AppSettings_ikko = LayoutSettings +
  isCustomRatio :: bool
  customW :: int
  customH :: int
  exportQuality :: int
  maskIndicesStr :: jsstring
  overlayImgUrl :: "jsstring option"
  stickerImgUrl :: "jsstring option"

section \<open>Duplicate removal\<close>


text \<open>The three accumulators of \<open>removeDuplicates\<close>, and the URLs it revokes.\<close>

record dedup_state =
  seen :: "jsstring set"
  keep :: "ImageItem list"
  removeIds :: "jsstring list"
  revokedUrls :: "jsstring list"



section \<open>Dimension planner\<close>

text \<open>\<open>calculateCellDimensions\<close> of the ikko variant, \<open>MAX_CANVAS_DIMENSION = 8192\<close>.\<close>

definition MAX_CANVAS_DIMENSION_ikko :: int where
  "MAX_CANVAS_DIMENSION_ikko = 8192"

definition calculateCellDimensions :: "int \<Rightarrow> rat \<Rightarrow> int \<Rightarrow> int \<times> int" where
  "calculateCellDimensions cols' ratio gap' =
     (let cellW = (if cols' * 1500 > MAX_CANVAS_DIMENSION_ikko
                   then \<lfloor>(of_int (MAX_CANVAS_DIMENSION_ikko - cols' * gap') :: rat) / of_int cols'\<rfloor>
                   else 1500);
          cellH = \<lfloor>of_int cellW / ratio\<rfloor>
      in (cellW, cellH))"

text \<open>The same computation at the head of \<open>drawAsync\<close> of \<open>puzzle-ultimate\<close>, with
  \<open>MAX_CANVAS_DIMENSION = 12000\<close>.\<close>

definition MAX_CANVAS_DIMENSION :: int where
  "MAX_CANVAS_DIMENSION = 12000"

definition MAX_SAFE_HEIGHT :: int where
  "MAX_SAFE_HEIGHT = 16000"

definition drawCellW :: "int \<Rightarrow> int \<Rightarrow> int" where
  "drawCellW cols' gap' =
     (if cols' * 1500 > MAX_CANVAS_DIMENSION
      then \<lfloor>(of_int (MAX_CANVAS_DIMENSION - cols' * gap') :: rat) / of_int cols'\<rfloor>
      else 1500)"

definition drawCellH :: "int \<Rightarrow> rat \<Rightarrow> int" where
  "drawCellH cellW ratio = \<lfloor>of_int cellW / ratio\<rfloor>"

text \<open>
  The automatic row count of \<open>startGeneration\<close>, taken when \<open>groupRows <= 0\<close>:
  \<open>Math.max(1, Math.floor((SAFE_H + gap) / (cH + gap)))\<close> with \<open>SAFE_H = 15500\<close>. The cell
  height \<open>cH = cW / aspectRatio\<close> is not floored here.
\<close>

definition SAFE_H :: int where
  "SAFE_H = 15500"

definition autoRows :: "rat \<Rightarrow> int \<Rightarrow> int" where
  "autoRows cH gap' =
     (let calculated = \<lfloor>(of_int (SAFE_H + gap') :: rat) / (cH + of_int gap')\<rfloor>
      in max 1 calculated)"

definition estimateCellH :: "AppSettings \<Rightarrow> rat" where
  "estimateCellH settings =
     (let cW = (if cols settings * 1500 > 12000
                then \<lfloor>(of_int (12000 - cols settings * gap settings) :: rat)
                       / of_int (cols settings)\<rfloor>
                else 1500)
      in of_int cW / aspectRatio settings)"

definition effectiveGroupRows :: "AppSettings \<Rightarrow> int" where
  "effectiveGroupRows settings =
     (if groupRows settings \<le> 0
      then autoRows (estimateCellH settings) (gap settings)
      else groupRows settings)"

section \<open>Page compositor\<close>

text \<open>
  The canvas is modelled by its pixel size and the list of drawing operations issued on it.
  Every operation of a cell carries the cell: the row \<open>r\<close>, the column \<open>c\<close> and the origin
  \<open>(x, y)\<close> the source computes for it.
\<close>

record cell =
  cell_row :: int
  cell_col :: int
  cell_x :: int
  cell_y :: int

datatype 'a draw_op =
    FillBackground int int
  | DrawImage cell 'a
  | ErrorTile cell
  | DrawNumber cell int
  | MaskLine cell line_style
  | DrawSticker cell
  | DrawOverlay int int

record 'a canvas =
  canvasW :: int
  canvasH :: int
  ops :: "'a draw_op list"

text \<open>
  Cancellation is a flag (\<open>isCancelledRef.current\<close>) that only an event handler can set, so
  it can change only while the run is suspended in an \<open>await\<close> on a timer, a decode or an
  encode. The model counts the instants at which the run reads the flag: \<open>isCancelled t\<close> is
  the value read at instant \<open>t\<close>, reads with no suspension between them share an instant,
  and every suspension before the next read moves to the next instant.
\<close>

type_synonym cancel_flag = "nat \<Rightarrow> bool"

text \<open>The cell of index \<open>idx\<close>: \<open>r = Math.floor(idx / cols)\<close>, \<open>c = idx % cols\<close>,
  \<open>x = c * (w + gap)\<close>, \<open>y = r * (h + gap)\<close>. JavaScript's \<open>%\<close> truncates.\<close>

definition cellOf :: "int \<Rightarrow> int \<Rightarrow> int \<Rightarrow> int \<Rightarrow> nat \<Rightarrow> cell" where
  "cellOf cols' w h gap' idx =
     (let r = int idx div cols';
          c = int idx smod cols'
      in \<lparr>cell_row = r, cell_col = c, cell_x = c * (w + gap'), cell_y = r * (h + gap')\<rparr>)"

definition currentNum :: "int \<Rightarrow> int \<Rightarrow> nat \<Rightarrow> int" where
  "currentNum startNum globalOffset idx = startNum + globalOffset + int idx"

subsection \<open>\<open>drawAsync\<close> of \<open>puzzle-ultimate\<close>\<close>

text \<open>
  The sequential draw of one cell. \<open>decode\<close> gives the natural size of the decoded bitmap, or
  \<open>None\<close> when both decoders fail; a bitmap with a zero side is not drawn. \<open>stickerImg\<close> says
  whether a sticker bitmap is loaded.
\<close>

definition drawCell ::
  "AppSettings \<Rightarrow> int \<Rightarrow> int \<Rightarrow> int \<Rightarrow> int list \<Rightarrow> bool \<Rightarrow>
   (ImageItem \<Rightarrow> (nat \<times> nat) option) \<Rightarrow> ImageItem list \<Rightarrow> nat \<Rightarrow> ImageItem draw_op list" where
  "drawCell settings cellW cellH globalOffset maskIdx stickerImg decode images idx =
     (let item = images ! idx;
          bitmap = decode item;
          cl = cellOf (cols settings) cellW cellH (gap settings) idx;
          num = currentNum (startNumber settings) globalOffset idx
      in (case bitmap of
            Some (imgW, imgH) \<Rightarrow> if imgW \<noteq> 0 \<and> imgH \<noteq> 0 then [DrawImage cl item] else []
          | None \<Rightarrow> [ErrorTile cl])
         @ (if showNum settings then [DrawNumber cl num] else [])
         @ (if num \<in> set maskIdx
            then (if maskMode settings = ModeLine then [MaskLine cl (lineStyle settings)]
                  else if maskMode settings = ModeImage \<and> stickerImg then [DrawSticker cl]
                  else [])
            else []))"

text \<open>
  The loop \<open>for (i = 0; i < images.length; i += 4)\<close>. Each round reads the flag, decodes a
  chunk of four, reads the flag again, draws the chunk in order and yields. The result is
  the operations issued, whether the loop ran to its end, and the instant of the caller's
  next read.
\<close>

function drawLoop ::
  "(nat \<Rightarrow> 'a draw_op list) \<Rightarrow> nat \<Rightarrow> cancel_flag \<Rightarrow> nat \<Rightarrow> nat \<Rightarrow> 'a draw_op list
   \<Rightarrow> 'a draw_op list \<times> bool \<times> nat" where
  "drawLoop cellOps n isCancelled i t acc =
     (if i < n then
        (if isCancelled t then (acc, False, t)
         else
           let limit = min (i + 4) n;
               chunkIndices = [i..<limit]
           in if isCancelled (t + 1) then (acc, False, t + 1)
              else drawLoop cellOps n isCancelled (i + 4) (t + 2)
                     (acc @ concat (map cellOps chunkIndices)))
      else (acc, True, t))"
  by pat_completeness auto
termination
  by (relation "measure (\<lambda>(cellOps, n, isCancelled, i, t, acc). n - i)") auto

definition drawAsync ::
  "ImageItem list \<Rightarrow> AppSettings \<Rightarrow> int \<Rightarrow> int list \<Rightarrow> bool \<Rightarrow> bool \<Rightarrow>
   (ImageItem \<Rightarrow> (nat \<times> nat) option) \<Rightarrow> cancel_flag \<Rightarrow> nat \<Rightarrow> ImageItem canvas \<times> nat" where
  "drawAsync images settings globalOffset maskIdx stickerImg overlayImg decode isCancelled t =
     (let cellW = drawCellW (cols settings) (gap settings);
          cellH = drawCellH cellW (aspectRatio settings);
          rows = \<lceil>(of_int (int (length images)) :: rat) / of_int (cols settings)\<rceil>;
          totalH = rows * cellH + (rows - 1) * gap settings;
          totalW = cols settings * cellW + (cols settings - 1) * gap settings;
          scaleFactor = (if totalH > MAX_SAFE_HEIGHT
                         then (of_int MAX_SAFE_HEIGHT :: rat) / of_int totalH else 1);
          targetW = \<lfloor>of_int totalW * scaleFactor\<rfloor>;
          targetH = \<lfloor>of_int totalH * scaleFactor\<rfloor>;
          (drawn, completed, t') =
             drawLoop (drawCell settings cellW cellH globalOffset maskIdx stickerImg decode images)
               (length images) isCancelled 0 t [FillBackground totalW totalH]
      in (\<lparr>canvasW = targetW, canvasH = targetH,
           ops = drawn @ (if completed \<and> overlayImg then [DrawOverlay totalW totalH] else [])\<rparr>,
          t'))"

subsection \<open>\<open>drawAsync\<close> of the ikko variant\<close>

text \<open>
  One task. \<open>decode\<close> gives the natural size of the image behind a URL, or \<open>None\<close> when
  \<open>img.decode()\<close> rejects; a broken image or one of natural width 0 gets the error tile.
  The mask is drawn only under \<open>applyMask\<close>.
\<close>

definition drawTask_ikko ::
  "AppSettings_ikko \<Rightarrow> int \<Rightarrow> int \<Rightarrow> int \<Rightarrow> int \<Rightarrow> int \<Rightarrow> int \<Rightarrow> int list \<Rightarrow> bool \<Rightarrow> bool \<Rightarrow>
   (jsstring \<Rightarrow> (nat \<times> nat) option) \<Rightarrow> jsstring list \<Rightarrow> nat \<Rightarrow> jsstring draw_op list" where
  "drawTask_ikko settings cols' w h gap' globalOffset startNum maskIdx applyMask stickerImgEl
       decode images i =
     (let imgUrl = images ! i;
          cl = cellOf cols' w h gap' i;
          num = currentNum startNum globalOffset i
      in (case decode imgUrl of
            None \<Rightarrow> [ErrorTile cl]
          | Some (nw, nh) \<Rightarrow> if nw = 0 then [ErrorTile cl] else [DrawImage cl imgUrl])
         @ (if showNum settings then [DrawNumber cl num] else [])
         @ (if applyMask \<and> num \<in> set maskIdx
            then (if maskMode settings = ModeLine then [MaskLine cl (lineStyle settings)]
                  else if maskMode settings = ModeImage \<and> stickerImgEl then [DrawSticker cl]
                  else [])
            else []))"

text \<open>
  The launch loop \<open>for (const task of tasks)\<close> with \<open>CONCURRENCY_LIMIT = 8\<close>. The flag is
  read before each launch (the task's own first read is at the same instant); a launched
  task never reads it again. From the eighth launch on the loop awaits a free slot before
  the next launch, which is a new instant. Tasks draw when their decode completes; the model
  lists their operations in launch order, each task's operations being contiguous.
\<close>

fun launchTasks ::
  "(nat \<Rightarrow> 'a draw_op list) \<Rightarrow> cancel_flag \<Rightarrow> nat \<Rightarrow> nat list \<Rightarrow> 'a draw_op list
   \<Rightarrow> 'a draw_op list \<times> nat" where
  "launchTasks task isCancelled t [] acc = (acc, t)"
| "launchTasks task isCancelled t (i # rest) acc =
     (if isCancelled t then (acc, t)
      else launchTasks task isCancelled (if i + 1 \<ge> 8 then t + 1 else t) rest (acc @ task i))"

definition drawAsync_ikko ::
  "jsstring list \<Rightarrow> int \<Rightarrow> int \<Rightarrow> int \<Rightarrow> int \<Rightarrow> int \<Rightarrow> int \<Rightarrow> int \<Rightarrow> int list \<Rightarrow>
   AppSettings_ikko \<Rightarrow> bool \<Rightarrow> (jsstring \<Rightarrow> (nat \<times> nat) option) \<Rightarrow> cancel_flag \<Rightarrow> nat
   \<Rightarrow> jsstring canvas \<times> nat" where
  "drawAsync_ikko images rows cols' w h gap' globalOffset startNum maskIdx settings applyMask
       decode isCancelled t =
     (let cw = cols' * w + (cols' - 1) * gap';
          ch = rows * h + (rows - 1) * gap';
          stickerImgEl = (maskMode settings = ModeImage \<and> stickerImgUrl settings \<noteq> None);
          overlayImgEl = (overlayImgUrl settings \<noteq> None);
          (drawn, t') =
             launchTasks
               (drawTask_ikko settings cols' w h gap' globalOffset startNum maskIdx applyMask
                  stickerImgEl decode images)
               isCancelled t [0..<length images] [FillBackground cw ch]
      in (\<lparr>canvasW = cw, canvasH = ch,
           ops = drawn @ (if overlayImgEl then [DrawOverlay cw ch] else [])\<rparr>,
          t' + 1))"

section \<open>Batch partitioner and page encoder\<close>

text \<open>\<open>Array.prototype.slice(start, stop)\<close>: a negative bound counts from the end, and both
  bounds are clamped to the array.\<close>

definition jsSlice :: "'a list \<Rightarrow> int \<Rightarrow> int \<Rightarrow> 'a list" where
  "jsSlice xs start stop =
     (let len = int (length xs);
          k = (if start < 0 then max (len + start) 0 else min start len);
          fin = (if stop < 0 then max (len + stop) 0 else min stop len)
      in take (nat (fin - k)) (drop (nat k) xs))"

text \<open>\<open>Math.ceil(targets.length / batchSize)\<close>.\<close>

definition totalBatches :: "nat \<Rightarrow> int \<Rightarrow> int" where
  "totalBatches n batchSize = \<lceil>(of_int (int n) :: rat) / of_int batchSize\<rceil>"

text \<open>\<open>targets.slice(b * batchSize, Math.min((b + 1) * batchSize, targets.length))\<close>.\<close>

definition batchSlice :: "'a list \<Rightarrow> int \<Rightarrow> nat \<Rightarrow> 'a list" where
  "batchSlice targets batchSize b =
     jsSlice targets (int b * batchSize) (min ((int b + 1) * batchSize) (int (length targets)))"

text \<open>The slices the page loop \<open>for (b = 0; b < totalBatches; b++)\<close> takes, in page order.\<close>

definition partitionPages :: "'a list \<Rightarrow> int \<Rightarrow> 'a list list" where
  "partitionPages targets batchSize =
     map (batchSlice targets batchSize) [0..<nat (totalBatches (length targets) batchSize)]"

text \<open>The strip-and-repack filter of \<open>startGeneration\<close>, on gallery positions.\<close>

definition repackIndices :: "int \<Rightarrow> int list \<Rightarrow> nat \<Rightarrow> nat list" where
  "repackIndices startNum maskIdx n =
     filter (\<lambda>idx. startNum + int idx \<notin> set maskIdx) [0..<n]"

text \<open>The same filter of the ikko \<open>generate\<close>, \<open>targets.filter((_, i) => \<dots>)\<close>, on the items.\<close>

definition repackTargets_ikko :: "int \<Rightarrow> int list \<Rightarrow> 'a list \<Rightarrow> 'a list" where
  "repackTargets_ikko startNum maskIdx targets =
     map snd (filter (\<lambda>(i, u). startNum + int i \<notin> set maskIdx)
                (zip [0..<length targets] targets))"

datatype op_type = Normal | Apply | Repack

datatype mime = ImagePng | ImageJpeg

text \<open>An encoded page: the type and quality argument it was requested with, and the canvas
  it encodes.\<close>

record 'a Blob =
  blobType :: mime
  blobQuality :: "rat option"
  blobPage :: "'a canvas"

text \<open>\<open>canvas.toBlob(resolve, mimeType, qVal)\<close>; the browser answers \<open>null\<close> for a canvas it
  cannot encode, which \<open>encodable\<close> decides.\<close>

definition toBlob :: "('a canvas \<Rightarrow> bool) \<Rightarrow> 'a canvas \<Rightarrow> mime \<Rightarrow> rat option \<Rightarrow> 'a Blob option" where
  "toBlob encodable cv mimeType qVal =
     (if encodable cv then Some \<lparr>blobType = mimeType, blobQuality = qVal, blobPage = cv\<rparr>
      else None)"

text \<open>The type and quality \<open>startGeneration\<close> requests: \<open>isPng = qualityPreset === '1.0'\<close>.\<close>

definition encodeParams :: "AppSettings \<Rightarrow> mime \<times> rat option" where
  "encodeParams settings =
     (let isPng = (qualityPreset settings = js ''1.0'');
          mimeType = (if isPng then ImagePng else ImageJpeg);
          qVal = (if isPng then None else Some (of_int (quality settings) / 100))
      in (mimeType, qVal))"

text \<open>The type and quality the ikko \<open>generate\<close> requests: the quality is capped at 100 and
  \<open>isPng = qualityVal === 100\<close>.\<close>

definition encodeParams_ikko :: "AppSettings_ikko \<Rightarrow> mime \<times> rat option" where
  "encodeParams_ikko settings =
     (let qualityVal = (if exportQuality settings > 100 then 100 else exportQuality settings);
          isPng = (qualityVal = 100)
      in (if isPng then ImagePng else ImageJpeg,
          if isPng then None else Some (of_int qualityVal / 100)))"

section \<open>Generation run\<close>

text \<open>
  The page loop, the same in both variants: read the flag and leave the loop if it is set;
  yield; draw the page; read the flag again and leave the loop if it is set; encode and
  append the blob unless the encoder answered \<open>null\<close>. \<open>draw b t\<close> draws page \<open>b\<close> starting
  at instant \<open>t\<close>. The result is the local blob list and the instant of the read that
  follows the loop.
\<close>

fun pageLoop ::
  "(nat \<Rightarrow> nat \<Rightarrow> 'a canvas \<times> nat) \<Rightarrow> ('a canvas \<Rightarrow> bool) \<Rightarrow> mime \<Rightarrow> rat option \<Rightarrow>
   cancel_flag \<Rightarrow> nat \<Rightarrow> nat list \<Rightarrow> 'a Blob list \<Rightarrow> 'a Blob list \<times> nat" where
  "pageLoop draw encodable mimeType qVal isCancelled t [] acc = (acc, t)"
| "pageLoop draw encodable mimeType qVal isCancelled t (b # bs) acc =
     (if isCancelled t then (acc, t)
      else
        let (cv, t1) = draw b (t + 1)
        in if isCancelled t1 then (acc, t1)
           else pageLoop draw encodable mimeType qVal isCancelled (t1 + 1) bs
                  (acc @ (case toBlob encodable cv mimeType qVal of
                            Some blob \<Rightarrow> [blob] | None \<Rightarrow> [])))"

text \<open>What a run leaves behind: the published state \<open>generatedBlobs\<close> and the local list
  \<open>newBlobs\<close> it had accumulated.\<close>

record 'a gen_result =
  generatedBlobs :: "'a Blob list"
  newBlobs :: "'a Blob list"

text \<open>
  \<open>startGeneration\<close> of \<open>puzzle-ultimate\<close>. With an empty gallery it alerts and changes
  nothing. The published state is cleared before the loop and set to the local list after it
  only if the flag is not set. \<open>None\<close> stands for the settings on which JavaScript computes
  the loop bound with \<open>Infinity\<close> or \<open>NaN\<close> (zero columns, zero ratio, zero row pitch), which
  the model does not cover. A decode failure is part of the model (the error tile); an
  exception thrown by a canvas call, which the source catches with an alert after leaving
  the loop, is not.
\<close>

definition startGeneration ::
  "op_type \<Rightarrow> AppSettings \<Rightarrow> ImageItem list \<Rightarrow> bool \<Rightarrow> bool \<Rightarrow>
   (ImageItem \<Rightarrow> (nat \<times> nat) option) \<Rightarrow> (ImageItem canvas \<Rightarrow> bool) \<Rightarrow> cancel_flag \<Rightarrow>
   ImageItem Blob list \<Rightarrow> ImageItem gen_result option" where
  "startGeneration opType settings images stickerImg overlayImg decode encodable isCancelled
       prevBlobs =
     (if images = [] then Some \<lparr>generatedBlobs = prevBlobs, newBlobs = []\<rparr>
      else if cols settings = 0 \<or> aspectRatio settings = 0
              \<or> (groupRows settings \<le> 0 \<and> estimateCellH settings + of_int (gap settings) = 0)
      then None
      else
        let maskTargetIndices = parseMaskIndices (maskIndices settings);
            targetIndices =
              (if opType = Repack
               then repackIndices (startNumber settings) maskTargetIndices (length images)
               else [0..<length images]);
            batchSize = cols settings * effectiveGroupRows settings;
            (mimeType, qVal) = encodeParams settings;
            (blobs, tEnd) =
               pageLoop
                 (\<lambda>b t. drawAsync (map (\<lambda>i. images ! i) (batchSlice targetIndices batchSize b))
                           settings (int b * batchSize) maskTargetIndices stickerImg overlayImg
                           decode isCancelled t)
                 encodable mimeType qVal isCancelled 0
                 [0..<nat (totalBatches (length targetIndices) batchSize)] []
        in Some \<lparr>generatedBlobs = (if \<not> isCancelled tEnd then blobs else []),
                 newBlobs = blobs\<rparr>)"

text \<open>\<open>getRatio\<close> of the ikko variant; \<open>x || d\<close> replaces a zero \<open>x\<close> by \<open>d\<close>.\<close>

definition getRatio :: "AppSettings_ikko \<Rightarrow> rat" where
  "getRatio settings =
     (if isCustomRatio settings
      then of_int (if customW settings = 0 then 1000 else customW settings)
           / of_int (if customH settings = 0 then 1500 else customH settings)
      else aspectRatio settings)"

text \<open>\<open>generate\<close> of the ikko variant. Without an explicit row count all targets go on one
  page. \<open>None\<close> as for \<open>startGeneration\<close>.\<close>

definition generate ::
  "op_type \<Rightarrow> AppSettings_ikko \<Rightarrow> ImageItem list \<Rightarrow> (jsstring \<Rightarrow> (nat \<times> nat) option) \<Rightarrow>
   (jsstring canvas \<Rightarrow> bool) \<Rightarrow> cancel_flag \<Rightarrow> jsstring Blob list \<Rightarrow>
   jsstring gen_result option" where
  "generate opType settings images decode encodable isCancelled prevBlobs =
     (if images = [] then Some \<lparr>generatedBlobs = prevBlobs, newBlobs = []\<rparr>
      else
        let ratio = getRatio settings;
            (cellW, cellH) = calculateCellDimensions (cols settings) ratio (gap settings);
            maskIdx = parseMaskIndices (maskIndicesStr settings);
            targets = (if opType = Repack
                       then repackTargets_ikko (startNumber settings) maskIdx (map url images)
                       else map url images);
            finalApplyMask =
              (opType = Apply \<or> (opType = Normal \<and> length (maskIndicesStr settings) > 0));
            effectiveGroupRows' =
              (if groupRows settings > 0 then groupRows settings
               else \<lceil>(of_int (int (length targets)) :: rat) / of_int (cols settings)\<rceil>);
            batchSize = cols settings * effectiveGroupRows'
        in if cols settings = 0 \<or> ratio = 0 \<or> (batchSize = 0 \<and> targets \<noteq> []) then None
           else
             let (mimeType, qVal) = encodeParams_ikko settings;
                 (blobs, tEnd) =
                    pageLoop
                      (\<lambda>b t. let currentImgs = batchSlice targets batchSize b
                              in drawAsync_ikko currentImgs
                                   \<lceil>(of_int (int (length currentImgs)) :: rat)
                                     / of_int (cols settings)\<rceil>
                                   (cols settings) cellW cellH (gap settings) (int b * batchSize)
                                   (startNumber settings) maskIdx settings finalApplyMask decode
                                   isCancelled t)
                      encodable mimeType qVal isCancelled 0
                      [0..<nat (totalBatches (length targets) batchSize)] []
             in Some \<lparr>generatedBlobs = (if \<not> isCancelled tEnd then blobs else []),
                      newBlobs = blobs\<rparr>)"

section \<open>Vertical combine\<close>

text \<open>
  The size computation of \<open>handleDownload('combine')\<close> from the decoded sizes of the pages:
  the width is that of the first page, the height the sum of the heights. Beyond
  \<open>MAX_SAFE_TOTAL_HEIGHT = 28000\<close> rows or \<open>PIXEL_LIMIT = 80000000\<close> pixels the output is
  scaled by \<open>Math.min(scaleH, scaleP)\<close>. The scale is a real number here, a double in the
  source.
\<close>

definition MAX_SAFE_TOTAL_HEIGHT :: int where
  "MAX_SAFE_TOTAL_HEIGHT = 28000"

definition PIXEL_LIMIT :: int where
  "PIXEL_LIMIT = 80 * 1000 * 1000"

record combine_plan =
  finalW :: int
  finalH :: int
  scale :: real

definition combinePlan :: "int \<Rightarrow> int \<Rightarrow> combine_plan" where
  "combinePlan maxW totalH =
     (if totalH > MAX_SAFE_TOTAL_HEIGHT \<or> maxW * totalH > PIXEL_LIMIT
      then
        let scaleH = real_of_int MAX_SAFE_TOTAL_HEIGHT / real_of_int totalH;
            scaleP = sqrt (real_of_int PIXEL_LIMIT / real_of_int (maxW * totalH));
            sc = min scaleH scaleP
        in \<lparr>finalW = \<lfloor>real_of_int maxW * sc\<rfloor>, finalH = \<lfloor>real_of_int totalH * sc\<rfloor>, scale = sc\<rparr>
      else \<lparr>finalW = maxW, finalH = totalH, scale = 1\<rparr>)"

text \<open>The draw loop of the combine: page \<open>i\<close> is drawn at \<open>(0, y)\<close> with width \<open>finalW\<close> and
  height \<open>Math.floor(bmp.height * scale)\<close>, and \<open>y\<close> advances by that height. The result
  lists \<open>(y, width, height)\<close> per page.\<close>

fun combineDraw :: "int \<Rightarrow> real \<Rightarrow> int \<Rightarrow> (int \<times> int) list \<Rightarrow> (int \<times> int \<times> int) list" where
  "combineDraw fw sc y [] = []"
| "combineDraw fw sc y ((w, h) # rest) =
     (let drawH = \<lfloor>real_of_int h * sc\<rfloor>
      in (y, fw, drawH) # combineDraw fw sc (y + drawH) rest)"

text \<open>\<open>handleDownload('combine')\<close> on the decoded page sizes: the output canvas and the
  placements; \<open>None\<close> when there is no page (the handler alerts and returns).\<close>

definition handleDownloadCombine ::
  "(int \<times> int) list \<Rightarrow> (combine_plan \<times> (int \<times> int \<times> int) list) option" where
  "handleDownloadCombine pages =
     (if pages = [] then None
      else
        let maxW = fst (hd pages);
            totalH = sum_list (map snd pages);
            plan = combinePlan maxW totalH
        in Some (plan, combineDraw (finalW plan) (scale plan) 0 pages))"

section \<open>Observations and sample inputs\<close>

text \<open>The cells that received a mask decoration (line or sticker), and the cells that
  received a picture (the image or the error tile), in drawing order.\<close>

fun maskCellOf :: "'a draw_op \<Rightarrow> cell list" where
  "maskCellOf (MaskLine c s) = [c]"
| "maskCellOf (DrawSticker c) = [c]"
| "maskCellOf _ = []"

definition maskedCells :: "'a draw_op list \<Rightarrow> cell list" where
  "maskedCells os = concat (map maskCellOf os)"

fun tileCellOf :: "'a draw_op \<Rightarrow> cell list" where
  "tileCellOf (DrawImage c a) = [c]"
| "tileCellOf (ErrorTile c) = [c]"
| "tileCellOf _ = []"

definition tileCells :: "'a draw_op list \<Rightarrow> cell list" where
  "tileCells os = concat (map tileCellOf os)"

fun numberOf :: "'a draw_op \<Rightarrow> int list" where
  "numberOf (DrawNumber c k) = [k]"
| "numberOf _ = []"

definition drawnNumbers :: "'a draw_op list \<Rightarrow> int list" where
  "drawnNumbers os = concat (map numberOf os)"

text \<open>A flag that is set from instant \<open>k\<close> on, and one that is never set.\<close>

definition cancelFrom :: "nat \<Rightarrow> cancel_flag" where
  "cancelFrom k t \<longleftrightarrow> k \<le> t"

definition neverCancelled :: cancel_flag where
  "neverCancelled t \<longleftrightarrow> False"

text \<open>A decoder and an encoder that always succeed.\<close>

definition decodeAll :: "'a \<Rightarrow> (nat \<times> nat) option" where
  "decodeAll u = Some (800, 600)"

definition encodeAll :: "'a canvas \<Rightarrow> bool" where
  "encodeAll cv \<longleftrightarrow> True"

definition sampleItem :: "nat \<Rightarrow> ImageItem" where
  "sampleItem k =
     \<lparr>item_id = js ''id'' @ numberToString k, url = js ''blob:'' @ numberToString k,
      name = js ''img'' @ numberToString k, size_bytes = 1000 + k\<rparr>"

text \<open>\<open>DEFAULT_SETTINGS\<close> of the two variants.\<close>

definition DEFAULT_SETTINGS :: AppSettings where
  "DEFAULT_SETTINGS =
     \<lparr>cols = 3, groupRows = 0, aspectRatio = 3 / 4, gap = 0, showNum = True, startNumber = 1,
      maskMode = ModeLine, lineStyle = Cross, maskIndices = js [], quality = 80,
      qualityPreset = js ''0.80''\<rparr>"

definition DEFAULT_SETTINGS_ikko :: AppSettings_ikko where
  "DEFAULT_SETTINGS_ikko =
     \<lparr>cols = 3, groupRows = 0, aspectRatio = 9 / 16, gap = 0, showNum = True, startNumber = 1,
      maskMode = ModeLine, lineStyle = Cross, isCustomRatio = False, customW = 1000,
      customH = 1500, exportQuality = 80, maskIndicesStr = js [], overlayImgUrl = None,
      stickerImgUrl = None\<rparr>"

text \<open>A run of each variant on one image with the default settings.\<close>

definition sampleRun :: "ImageItem gen_result option" where
  "sampleRun =
     startGeneration Normal DEFAULT_SETTINGS [sampleItem 0] False False decodeAll encodeAll
       neverCancelled []"

definition sampleRun_ikko :: "jsstring gen_result option" where
  "sampleRun_ikko =
     generate Normal DEFAULT_SETTINGS_ikko [sampleItem 0] decodeAll encodeAll neverCancelled []"

text \<open>Settings a user reaches by choosing the preset \<open>custom\<close> and typing the quality 100,
  and a run with them.\<close>

definition customQuality100 :: AppSettings where
  "customQuality100 = DEFAULT_SETTINGS\<lparr>quality := 100, qualityPreset := js ''custom''\<rparr>"

definition customQuality100Run :: "ImageItem gen_result option" where
  "customQuality100Run =
     startGeneration Normal customQuality100 [sampleItem 0] False False decodeAll encodeAll
       neverCancelled []"




text \<open>The number of pages a run plans: \<open>totalBatches\<close> as each variant computes it.\<close>

definition plannedPages :: "op_type \<Rightarrow> AppSettings \<Rightarrow> ImageItem list \<Rightarrow> nat" where
  "plannedPages opType settings images =
     nat (totalBatches
            (length (if opType = Repack
                     then repackIndices (startNumber settings)
                            (parseMaskIndices (maskIndices settings)) (length images)
                     else [0..<length images]))
            (cols settings * effectiveGroupRows settings))"







text \<open>A cell receives a picture when the decoder failed (the error tile) or when the
  decoded bitmap has no zero side (the image).\<close>

definition drawable :: "(nat \<times> nat) option \<Rightarrow> bool" where
  "drawable bitmap \<longleftrightarrow> (case bitmap of None \<Rightarrow> True | Some (imgW, imgH) \<Rightarrow> imgW \<noteq> 0 \<and> imgH \<noteq> 0)"

text \<open>
  The scenario of the placement property: start number 1, global offset 0, mask input
  \<open>"2"\<close>, four images, two columns, line mode. \<open>maskTwoPage\<close> is the page
  \<open>puzzle-ultimate\<close> renders, \<open>maskTwoPage_ikko\<close> the page the ikko variant renders with
  \<open>applyMask\<close> set.
\<close>

definition fourImages :: "ImageItem list" where
  "fourImages = [sampleItem 0, sampleItem 1, sampleItem 2, sampleItem 3]"

definition maskTwoSettings :: AppSettings where
  "maskTwoSettings = DEFAULT_SETTINGS\<lparr>cols := 2, maskIndices := js ''2''\<rparr>"

definition maskTwoPage :: "ImageItem canvas" where
  "maskTwoPage =
     fst (drawAsync fourImages maskTwoSettings 0 (parseMaskIndices (maskIndices maskTwoSettings))
            False False decodeAll neverCancelled 0)"

definition maskTwoSettings_ikko :: AppSettings_ikko where
  "maskTwoSettings_ikko = DEFAULT_SETTINGS_ikko\<lparr>cols := 2, maskIndicesStr := js ''2''\<rparr>"

definition maskTwoPage_ikko :: "jsstring canvas" where
  "maskTwoPage_ikko =
     fst (drawAsync_ikko (map url fourImages) 2 2 1500 2666 0 0 1
            (parseMaskIndices (maskIndicesStr maskTwoSettings_ikko)) maskTwoSettings_ikko True
            decodeAll neverCancelled 0)"

text \<open>The same scenario in sticker mode with no sticker bitmap loaded, and the ikko page
  rendered without \<open>applyMask\<close>, as \<open>generate('repack')\<close> renders.\<close>

definition stickerlessPage :: "ImageItem canvas" where
  "stickerlessPage =
     fst (drawAsync fourImages (maskTwoSettings\<lparr>maskMode := ModeImage\<rparr>) 0
            (parseMaskIndices (maskIndices maskTwoSettings)) False False decodeAll
            neverCancelled 0)"

definition unmaskedPage_ikko :: "jsstring canvas" where
  "unmaskedPage_ikko =
     fst (drawAsync_ikko (map url fourImages) 2 2 1500 2666 0 0 1
            (parseMaskIndices (maskIndicesStr maskTwoSettings_ikko)) maskTwoSettings_ikko False
            decodeAll neverCancelled 0)"

section \<open>Index parser: verified properties\<close>

lemmas parse_eval =
  parseMaskIndices_def partIndices_def js_def isSeparator_def isWhiteSpace_def trim_def
  normalizeDashes_def parseInt_def digitValue_def upto_rec1

lemma parse_list_and_range: "parseMaskIndices (js ''5, 12, 1-3'') = [5, 12, 1, 2, 3]"
  by (simp add: parse_eval)

lemma parse_empty: "parseMaskIndices (js []) = []"
  by (simp add: parse_eval)

lemma parse_reversed_range: "parseMaskIndices (js ''3-1'') = [1, 2, 3]"
  by (simp add: parse_eval)

lemma parse_garbage: "parseMaskIndices (js ''abc, 5'') = [5]"
  by (simp add: parse_eval)

lemma parse_single: "parseMaskIndices (js ''2'') = [2]"
  by (simp add: parse_eval)

text \<open>
  Claim C7. As sets of the returned indices: \<open>parse("5, 12, 1-3") = {1,2,3,5,12}\<close>, the
  empty input gives the empty set, the reversed range \<open>"3-1"\<close> gives \<open>{1,2,3}\<close>, and in
  \<open>"abc, 5"\<close> the non-numeric token is skipped, leaving \<open>{5}\<close>. The parser is a total
  function: it has no failing branch.
\<close>

theorem parseMaskIndices_examples:
  "set (parseMaskIndices (js ''5, 12, 1-3'')) = {1, 2, 3, 5, 12}
   \<and> set (parseMaskIndices (js [])) = {}
   \<and> set (parseMaskIndices (js ''3-1'')) = {1, 2, 3}
   \<and> set (parseMaskIndices (js ''abc, 5'')) = {5}"
  unfolding parse_list_and_range parse_empty parse_reversed_range parse_garbage by auto

section \<open>Page encoder: verified properties\<close>

lemma pageLoop_blob_params:
  "\<forall>blob \<in> set acc. blobType blob = m \<and> blobQuality blob = q \<Longrightarrow>
   \<forall>blob \<in> set (fst (pageLoop draw enc m q isC t bs acc)).
      blobType blob = m \<and> blobQuality blob = q"
proof (induction bs arbitrary: t acc)
  case Nil
  then show ?case by simp
next
  case (Cons b bs)
  obtain cv t1 where d: "draw b (t + 1) = (cv, t1)" by (cases "draw b (t + 1)")
  have acc': "\<forall>blob \<in> set (acc @ (case toBlob enc cv m q of Some blob \<Rightarrow> [blob] | None \<Rightarrow> [])).
                blobType blob = m \<and> blobQuality blob = q"
    using Cons.prems by (auto simp: toBlob_def)
  show ?case
    using Cons.prems Cons.IH [OF acc'] d by simp
qed

lemma pageLoop_blobType:
  "blob \<in> set (fst (pageLoop draw enc m q isC t bs [])) \<Longrightarrow> blobType blob = m"
  using pageLoop_blob_params [of "[]" m q draw enc isC t bs] by simp

lemma pageLoop_blobQuality:
  "blob \<in> set (fst (pageLoop draw enc m q isC t bs [])) \<Longrightarrow> blobQuality blob = q"
  using pageLoop_blob_params [of "[]" m q draw enc isC t bs] by simp

lemma generate_blob_params:
  assumes "generate opType k images dec enc isC prev = Some r" and "images \<noteq> []"
    and "blob \<in> set (newBlobs r)"
  shows "blobType blob = fst (encodeParams_ikko k)"
    and "blobQuality blob = snd (encodeParams_ikko k)"
  using assms
  by (auto simp: generate_def Let_def case_prod_beta split: if_splits
           dest: pageLoop_blobType pageLoop_blobQuality)

lemma startGeneration_blob_params:
  assumes "startGeneration opType s images sticker overlay dec enc isC prev = Some r"
    and "images \<noteq> []" and "blob \<in> set (newBlobs r)"
  shows "blobType blob = fst (encodeParams s)"
    and "blobQuality blob = snd (encodeParams s)"
  using assms
  by (auto simp: startGeneration_def Let_def case_prod_beta split: if_splits
           dest: pageLoop_blobType pageLoop_blobQuality)

text \<open>
  Claim C6, as the code has it. In the ikko variant every page a run encodes is requested
  as PNG exactly when \<open>exportQuality\<close> is at least 100 (within the range 1 to 100: exactly
  when it is 100) and otherwise as JPEG at \<open>exportQuality / 100\<close>. In \<open>puzzle-ultimate\<close>
  every page is requested as PNG exactly when the quality preset is \<open>'1.0'\<close>, whatever the
  quality value is, and otherwise as JPEG at \<open>quality / 100\<close>.
\<close>

theorem encoder_format_of_run:
  "(generate opType k images dec enc isC prev = Some r \<and> images \<noteq> [] \<and> blob \<in> set (newBlobs r)
      \<longrightarrow> (blobType blob = ImagePng \<longleftrightarrow> exportQuality k \<ge> 100)
          \<and> (exportQuality k \<le> 100 \<longrightarrow> (blobType blob = ImagePng \<longleftrightarrow> exportQuality k = 100))
          \<and> (blobType blob \<noteq> ImagePng \<longrightarrow>
                blobType blob = ImageJpeg
                \<and> blobQuality blob = Some (of_int (exportQuality k) / 100)))
   \<and> (startGeneration opType' s images' sticker overlay dec' enc' isC' prev' = Some r'
        \<and> images' \<noteq> [] \<and> blob' \<in> set (newBlobs r')
      \<longrightarrow> (blobType blob' = ImagePng \<longleftrightarrow> qualityPreset s = js ''1.0'')
          \<and> (blobType blob' \<noteq> ImagePng \<longrightarrow>
                blobType blob' = ImageJpeg
                \<and> blobQuality blob' = Some (of_int (quality s) / 100)))"
proof (intro conjI impI)
  assume a: "generate opType k images dec enc isC prev = Some r \<and> images \<noteq> []
             \<and> blob \<in> set (newBlobs r)"
  then have a1: "generate opType k images dec enc isC prev = Some r"
    and a2: "images \<noteq> []" and a3: "blob \<in> set (newBlobs r)" by simp_all
  have p: "blobType blob = fst (encodeParams_ikko k)"
    "blobQuality blob = snd (encodeParams_ikko k)"
    by (rule generate_blob_params [OF a1 a2 a3])+
  show "blobType blob = ImagePng \<longleftrightarrow> exportQuality k \<ge> 100"
    using p by (auto simp: encodeParams_ikko_def Let_def split: if_splits)
  show "blobType blob = ImagePng \<longleftrightarrow> exportQuality k = 100" if "exportQuality k \<le> 100"
    using p that by (auto simp: encodeParams_ikko_def Let_def split: if_splits)
  show "blobType blob = ImageJpeg" if "blobType blob \<noteq> ImagePng"
    using that by (cases "blobType blob") auto
  show "blobQuality blob = Some (of_int (exportQuality k) / 100)" if "blobType blob \<noteq> ImagePng"
    using p that by (auto simp: encodeParams_ikko_def Let_def split: if_splits)
next
  assume a: "startGeneration opType' s images' sticker overlay dec' enc' isC' prev' = Some r'
             \<and> images' \<noteq> [] \<and> blob' \<in> set (newBlobs r')"
  then have a1: "startGeneration opType' s images' sticker overlay dec' enc' isC' prev' = Some r'"
    and a2: "images' \<noteq> []" and a3: "blob' \<in> set (newBlobs r')" by simp_all
  have p: "blobType blob' = fst (encodeParams s)" "blobQuality blob' = snd (encodeParams s)"
    by (rule startGeneration_blob_params [OF a1 a2 a3])+
  show "blobType blob' = ImagePng \<longleftrightarrow> qualityPreset s = js ''1.0''"
    using p by (auto simp: encodeParams_def Let_def split: if_splits)
  show "blobType blob' = ImageJpeg" if "blobType blob' \<noteq> ImagePng"
    using that by (cases "blobType blob'") auto
  show "blobQuality blob' = Some (of_int (quality s) / 100)" if "blobType blob' \<noteq> ImagePng"
    using p that by (auto simp: encodeParams_def Let_def split: if_splits)
qed

subsection \<open>Evaluation of runs on concrete inputs\<close>

lemma floor_rat_numeral: "\<lfloor>(numeral a :: rat) / numeral b\<rfloor> = numeral a div numeral b"
  by (metis floor_divide_of_int_eq of_int_numeral)

lemma floor_rat_one: "\<lfloor>(1 :: rat) / numeral b\<rfloor> = 1 div numeral b"
  by (metis floor_divide_of_int_eq of_int_numeral of_int_1)

lemma ceiling_rat_of_int: "\<lceil>(of_int a :: rat) / of_int b\<rceil> = - (- a div b)"
  by (metis ceiling_def floor_divide_of_int_eq minus_divide_left of_int_minus)

lemma ceiling_rat_numeral:
  "\<lceil>(numeral a :: rat) / numeral b\<rceil> = - (- numeral a div numeral b)"
  using ceiling_rat_of_int [of "numeral a" "numeral b"] by simp

lemma ceiling_rat_one: "\<lceil>(1 :: rat) / numeral b\<rceil> = - (- 1 div numeral b)"
  using ceiling_rat_of_int [of 1 "numeral b"] by simp

lemma numberToString_digit: "n < 10 \<Longrightarrow> numberToString n = [48 + n]"
  by simp

lemmas run_eval =
  generate_def startGeneration_def Let_def getRatio_def calculateCellDimensions_def
  MAX_CANVAS_DIMENSION_ikko_def MAX_CANVAS_DIMENSION_def MAX_SAFE_HEIGHT_def SAFE_H_def
  drawCellW_def drawCellH_def autoRows_def estimateCellH_def effectiveGroupRows_def
  totalBatches_def batchSlice_def jsSlice_def repackIndices_def repackTargets_ikko_def
  encodeParams_def encodeParams_ikko_def toBlob_def drawAsync_def drawAsync_ikko_def
  drawCell_def drawTask_ikko_def cellOf_def currentNum_def
  neverCancelled_def cancelFrom_def decodeAll_def encodeAll_def sampleItem_def
  DEFAULT_SETTINGS_def DEFAULT_SETTINGS_ikko_def numberToString_digit
  floor_rat_numeral floor_rat_one ceiling_rat_numeral ceiling_rat_one js_def

lemma sampleRun_blobs:
  "map_option (\<lambda>r. map (\<lambda>b. (blobType b, blobQuality b)) (newBlobs r)) sampleRun
   = Some [(ImageJpeg, Some (4 / 5))]"
  by (simp add: sampleRun_def run_eval parse_empty [unfolded js_def] del: numberToString.simps)

lemma sampleRun_ikko_blobs:
  "map_option (\<lambda>r. map (\<lambda>b. (blobType b, blobQuality b)) (newBlobs r)) sampleRun_ikko
   = Some [(ImageJpeg, Some (4 / 5))]"
  by (simp add: sampleRun_ikko_def run_eval parse_empty [unfolded js_def]
           del: numberToString.simps)

lemma customQuality100Run_blobs:
  "map_option (\<lambda>r. map (\<lambda>b. (blobType b, blobQuality b)) (newBlobs r)) customQuality100Run
   = Some [(ImageJpeg, Some 1)]"
  by (simp add: customQuality100Run_def customQuality100_def run_eval
                parse_empty [unfolded js_def] del: numberToString.simps)

theorem encoder_format_of_run_witness:
  "sampleRun_ikko \<noteq> None \<and> newBlobs (the sampleRun_ikko) \<noteq> []
   \<and> blobType (hd (newBlobs (the sampleRun_ikko))) = ImageJpeg
   \<and> blobQuality (hd (newBlobs (the sampleRun_ikko))) = Some (4 / 5)
   \<and> sampleRun \<noteq> None \<and> newBlobs (the sampleRun) \<noteq> []
   \<and> blobType (hd (newBlobs (the sampleRun))) = ImageJpeg
   \<and> blobQuality (hd (newBlobs (the sampleRun))) = Some (4 / 5)"
proof -
  obtain r b where r: "sampleRun_ikko = Some r" and b: "newBlobs r = [b]"
    using sampleRun_ikko_blobs by (cases sampleRun_ikko) auto
  obtain r' b' where r': "sampleRun = Some r'" and b': "newBlobs r' = [b']"
    using sampleRun_blobs by (cases sampleRun) auto
  have q: "exportQuality DEFAULT_SETTINGS_ikko = 80" "quality DEFAULT_SETTINGS = 80"
    "qualityPreset DEFAULT_SETTINGS \<noteq> js ''1.0''"
    by (simp_all add: DEFAULT_SETTINGS_ikko_def DEFAULT_SETTINGS_def js_def)
  show ?thesis
    using encoder_format_of_run [where opType = Normal and k = DEFAULT_SETTINGS_ikko
        and images = "[sampleItem 0]" and dec = decodeAll and enc = encodeAll
        and isC = neverCancelled and prev = "[]" and r = r and blob = b
        and opType' = Normal and s = DEFAULT_SETTINGS and images' = "[sampleItem 0]"
        and sticker = False and overlay = False and dec' = decodeAll and enc' = encodeAll
        and isC' = neverCancelled and prev' = "[]" and r' = r' and blob' = b']
      r b r' b' q
    by (simp add: sampleRun_def sampleRun_ikko_def)
qed

theorem encoder_quality_100_counterexample:
  "quality customQuality100 = 100
   \<and> map_option (map blobType \<circ> newBlobs) customQuality100Run = Some [ImageJpeg]"
  using customQuality100Run_blobs
  by (cases customQuality100Run) (auto simp: customQuality100_def)

section \<open>Dimension planner: verified properties\<close>

lemma floor_div_sub:
  assumes c: "(0::int) < c"
  shows "\<lfloor>(of_int (M - c * g) :: rat) / of_int c\<rfloor> = M div c - g"
proof -
  have "\<lfloor>(of_int (M - c * g) :: rat) / of_int c\<rfloor> = (M - c * g) div c"
    by (rule floor_divide_of_int_eq)
  also have "M - c * g = M + c * (- g)" by simp
  also have "(M + c * (- g)) div c = - g + M div c"
    using c by (subst div_mult_self2) auto
  finally show ?thesis by simp
qed

lemma div_antimono:
  "(0::int) \<le> M \<Longrightarrow> 0 < c1 \<Longrightarrow> c1 \<le> c2 \<Longrightarrow> M div c2 \<le> M div c1"
  by (rule zdiv_mono2) auto

lemma div_strict_step:
  assumes M: "(0::int) \<le> M" and c: "0 < c" and sq: "c * (c + 1) \<le> M"
  shows "M div (c + 1) < M div c"
proof -
  define q where "q = M div (c + 1)"
  have "(c + 1) * q + M mod (c + 1) = M" unfolding q_def by (rule mult_div_mod_eq)
  moreover have "0 \<le> M mod (c + 1)" using c by simp
  ultimately have q1: "(c + 1) * q \<le> M" by linarith
  have "c * (c + 1) div (c + 1) \<le> M div (c + 1)"
    using sq c by (intro zdiv_mono1) auto
  then have qc: "c \<le> q" using c by (simp add: q_def)
  have "(q + 1) * c \<le> (c + 1) * q" using qc by (simp add: algebra_simps)
  then have "(q + 1) * c \<le> M" using q1 by linarith
  then have "(q + 1) * c div c \<le> M div c" using c by (intro zdiv_mono1) auto
  then have "q + 1 \<le> M div c" using c by simp
  then show ?thesis by (simp add: q_def)
qed

lemma div_strict_antimono:
  assumes M: "(0::int) \<le> M" and c1: "0 < c1" and lt: "c1 < c2" and sq: "(c2 - 1) * c2 \<le> M"
  shows "M div c2 < M div c1"
proof -
  have "M div (c2 - 1 + 1) < M div (c2 - 1)"
    using M c1 lt sq by (intro div_strict_step) auto
  moreover have "M div (c2 - 1) \<le> M div c1"
    using M c1 lt by (intro div_antimono) auto
  ultimately show ?thesis by simp
qed

lemma cellW_ikko_wide:
  assumes "c * 1500 > MAX_CANVAS_DIMENSION_ikko"
  shows "fst (calculateCellDimensions c r g) = MAX_CANVAS_DIMENSION_ikko div c - g"
proof -
  have "0 < c" using assms by (simp add: MAX_CANVAS_DIMENSION_ikko_def)
  then have "\<lfloor>(of_int (MAX_CANVAS_DIMENSION_ikko - c * g) :: rat) / of_int c\<rfloor>
             = MAX_CANVAS_DIMENSION_ikko div c - g"
    by (rule floor_div_sub)
  then show ?thesis
    using assms unfolding calculateCellDimensions_def Let_def by (simp only: if_True fst_conv)
qed

lemma drawCellW_wide:
  assumes "c * 1500 > MAX_CANVAS_DIMENSION"
  shows "drawCellW c g = MAX_CANVAS_DIMENSION div c - g"
proof -
  have "0 < c" using assms by (simp add: MAX_CANVAS_DIMENSION_def)
  then have "\<lfloor>(of_int (MAX_CANVAS_DIMENSION - c * g) :: rat) / of_int c\<rfloor>
             = MAX_CANVAS_DIMENSION div c - g"
    by (rule floor_div_sub)
  then show ?thesis
    using assms unfolding drawCellW_def by (simp only: if_True)
qed

text \<open>
  Claim C9, as the code has it. For column counts \<open>c1 < c2\<close>, both with
  \<open>columns * 1500\<close> above the maximum page width, and any gap, the cell width for \<open>c2\<close> is
  never greater than that for \<open>c1\<close>, and it is strictly less whenever
  \<open>(c2 - 1) * c2\<close> is at most the maximum width (up to 91 columns for the limit 8192 and up
  to 110 for the limit 12000); beyond that the floor makes neighbouring column counts share
  a width. For 3 columns, ratio 0.75 and gap 0 the cell is 1500 by 2000, whose ratio is
  0.75.
\<close>

theorem cell_width_decreasing:
  assumes "c1 < c2"
  shows "(c1 * 1500 > MAX_CANVAS_DIMENSION_ikko \<longrightarrow>
            fst (calculateCellDimensions c2 r g) \<le> fst (calculateCellDimensions c1 r g)
            \<and> ((c2 - 1) * c2 \<le> MAX_CANVAS_DIMENSION_ikko \<longrightarrow>
                 fst (calculateCellDimensions c2 r g) < fst (calculateCellDimensions c1 r g)))
       \<and> (c1 * 1500 > MAX_CANVAS_DIMENSION \<longrightarrow>
            drawCellW c2 g \<le> drawCellW c1 g
            \<and> ((c2 - 1) * c2 \<le> MAX_CANVAS_DIMENSION \<longrightarrow> drawCellW c2 g < drawCellW c1 g))
       \<and> calculateCellDimensions 3 (3 / 4) 0 = (1500, 2000)
       \<and> (drawCellW 3 0, drawCellH (drawCellW 3 0) (3 / 4)) = (1500, 2000)
       \<and> (1500 :: rat) / 2000 = 3 / 4"
proof (intro conjI impI)
  assume w: "c1 * 1500 > MAX_CANVAS_DIMENSION_ikko"
  then have w2: "c2 * 1500 > MAX_CANVAS_DIMENSION_ikko" and p: "0 < c1"
    using assms by (auto simp: MAX_CANVAS_DIMENSION_ikko_def)
  have "MAX_CANVAS_DIMENSION_ikko div c2 \<le> MAX_CANVAS_DIMENSION_ikko div c1"
    using p assms by (intro div_antimono) (auto simp: MAX_CANVAS_DIMENSION_ikko_def)
  then show "fst (calculateCellDimensions c2 r g) \<le> fst (calculateCellDimensions c1 r g)"
    by (simp add: cellW_ikko_wide [OF w] cellW_ikko_wide [OF w2])
  assume "(c2 - 1) * c2 \<le> MAX_CANVAS_DIMENSION_ikko"
  then have "MAX_CANVAS_DIMENSION_ikko div c2 < MAX_CANVAS_DIMENSION_ikko div c1"
    using p assms by (intro div_strict_antimono) (auto simp: MAX_CANVAS_DIMENSION_ikko_def)
  then show "fst (calculateCellDimensions c2 r g) < fst (calculateCellDimensions c1 r g)"
    by (simp add: cellW_ikko_wide [OF w] cellW_ikko_wide [OF w2])
next
  assume w: "c1 * 1500 > MAX_CANVAS_DIMENSION"
  then have w2: "c2 * 1500 > MAX_CANVAS_DIMENSION" and p: "0 < c1"
    using assms by (auto simp: MAX_CANVAS_DIMENSION_def)
  have "MAX_CANVAS_DIMENSION div c2 \<le> MAX_CANVAS_DIMENSION div c1"
    using p assms by (intro div_antimono) (auto simp: MAX_CANVAS_DIMENSION_def)
  then show "drawCellW c2 g \<le> drawCellW c1 g"
    by (simp add: drawCellW_wide [OF w] drawCellW_wide [OF w2])
  assume "(c2 - 1) * c2 \<le> MAX_CANVAS_DIMENSION"
  then have "MAX_CANVAS_DIMENSION div c2 < MAX_CANVAS_DIMENSION div c1"
    using p assms by (intro div_strict_antimono) (auto simp: MAX_CANVAS_DIMENSION_def)
  then show "drawCellW c2 g < drawCellW c1 g"
    by (simp add: drawCellW_wide [OF w] drawCellW_wide [OF w2])
next
  show "calculateCellDimensions 3 (3 / 4) 0 = (1500, 2000)"
    by (simp add: calculateCellDimensions_def MAX_CANVAS_DIMENSION_ikko_def)
  show "(drawCellW 3 0, drawCellH (drawCellW 3 0) (3 / 4)) = (1500, 2000)"
    by (simp add: drawCellW_def drawCellH_def MAX_CANVAS_DIMENSION_def)
  show "(1500 :: rat) / 2000 = 3 / 4" by simp
qed

theorem cell_width_decreasing_witness:
  "(9::int) < 10 \<and> 9 * 1500 > MAX_CANVAS_DIMENSION_ikko \<and> 9 * 1500 > MAX_CANVAS_DIMENSION
   \<and> (10 - 1) * 10 \<le> MAX_CANVAS_DIMENSION_ikko \<and> (10 - 1) * 10 \<le> MAX_CANVAS_DIMENSION
   \<and> fst (calculateCellDimensions 10 (3 / 4) 0) < fst (calculateCellDimensions 9 (3 / 4) 0)
   \<and> drawCellW 10 0 < drawCellW 9 0"
  using cell_width_decreasing [of 9 10 "3 / 4" 0]
  by (simp add: MAX_CANVAS_DIMENSION_ikko_def MAX_CANVAS_DIMENSION_def)

theorem cell_width_strict_counterexample:
  "(100::int) < 101 \<and> 100 * 1500 > MAX_CANVAS_DIMENSION_ikko
   \<and> \<not> fst (calculateCellDimensions 101 (3 / 4) 0) < fst (calculateCellDimensions 100 (3 / 4) 0)
   \<and> (132::int) < 133 \<and> 132 * 1500 > MAX_CANVAS_DIMENSION
   \<and> \<not> drawCellW 133 0 < drawCellW 132 0"
  by (simp add: calculateCellDimensions_def drawCellW_def MAX_CANVAS_DIMENSION_ikko_def
                MAX_CANVAS_DIMENSION_def floor_rat_numeral)






section \<open>Duplicate removal: verified properties\<close>











section \<open>Batch partitioner: verified properties\<close>










section \<open>Strip and repack: verified properties\<close>








section \<open>Vertical combine: verified properties\<close>

lemma combineDraw_length: "length (combineDraw fw sc y pages) = length pages"
  by (induction pages arbitrary: y) (auto simp: Let_def)

lemma combineDraw_uniform:
  "(y', w', h') \<in> set (combineDraw fw sc y pages) \<Longrightarrow>
   w' = fw \<and> (\<exists>w h. (w, h) \<in> set pages \<and> h' = \<lfloor>real_of_int h * sc\<rfloor>)"
proof (induction pages arbitrary: y)
  case Nil
  then show ?case by simp
next
  case (Cons a pages)
  obtain w h where a: "a = (w, h)" by (cases a)
  from Cons.prems
  have "(y', w', h') = (y, fw, \<lfloor>real_of_int h * sc\<rfloor>)
        \<or> (y', w', h') \<in> set (combineDraw fw sc (y + \<lfloor>real_of_int h * sc\<rfloor>) pages)"
    unfolding a by (simp add: Let_def)
  then show ?case
  proof
    assume "(y', w', h') = (y, fw, \<lfloor>real_of_int h * sc\<rfloor>)"
    then show ?thesis unfolding a by auto
  next
    assume "(y', w', h') \<in> set (combineDraw fw sc (y + \<lfloor>real_of_int h * sc\<rfloor>) pages)"
    from Cons.IH [OF this] show ?thesis by auto
  qed
qed

text \<open>
  Claim C8. For pages of positive width whose summed height exceeds the safe height ceiling
  (28000) or whose width times summed height exceeds the safe pixel count (80000000), the
  combine computes one scale factor, the minimum of \<open>ceiling / totalHeight\<close> and
  \<open>sqrt(pixelLimit / (width * totalHeight))\<close>, which is below 1; the output is
  \<open>floor(width * scale)\<close> by \<open>floor(totalHeight * scale)\<close>, its height is at most the
  ceiling and its area at most the pixel limit, and every page is drawn at the output width
  and at \<open>floor(height * scale)\<close>, all with the same factor.
\<close>

theorem combine_downscale:
  assumes "0 < maxW"
    and "totalH > MAX_SAFE_TOTAL_HEIGHT \<or> maxW * totalH > PIXEL_LIMIT"
  shows "scale (combinePlan maxW totalH)
           = min (real_of_int MAX_SAFE_TOTAL_HEIGHT / real_of_int totalH)
                 (sqrt (real_of_int PIXEL_LIMIT / real_of_int (maxW * totalH)))
       \<and> 0 < scale (combinePlan maxW totalH) \<and> scale (combinePlan maxW totalH) < 1
       \<and> finalW (combinePlan maxW totalH)
           = \<lfloor>real_of_int maxW * scale (combinePlan maxW totalH)\<rfloor>
       \<and> finalH (combinePlan maxW totalH)
           = \<lfloor>real_of_int totalH * scale (combinePlan maxW totalH)\<rfloor>
       \<and> finalH (combinePlan maxW totalH) \<le> MAX_SAFE_TOTAL_HEIGHT
       \<and> finalW (combinePlan maxW totalH) * finalH (combinePlan maxW totalH) \<le> PIXEL_LIMIT
       \<and> (\<forall>y' w' h'. (y', w', h')
              \<in> set (combineDraw (finalW (combinePlan maxW totalH))
                       (scale (combinePlan maxW totalH)) 0 pages) \<longrightarrow>
              w' = finalW (combinePlan maxW totalH)
              \<and> (\<exists>w h. (w, h) \<in> set pages
                    \<and> h' = \<lfloor>real_of_int h * scale (combinePlan maxW totalH)\<rfloor>))
       \<and> (pages \<noteq> [] \<and> maxW = fst (hd pages) \<and> totalH = sum_list (map snd pages) \<longrightarrow>
            handleDownloadCombine pages
              = Some (combinePlan maxW totalH,
                      combineDraw (finalW (combinePlan maxW totalH))
                        (scale (combinePlan maxW totalH)) 0 pages))"
proof -
  let ?sH = "real_of_int MAX_SAFE_TOTAL_HEIGHT / real_of_int totalH"
  let ?sP = "sqrt (real_of_int PIXEL_LIMIT / real_of_int (maxW * totalH))"
  let ?s = "min ?sH ?sP"
  have H: "0 < totalH"
  proof (rule ccontr)
    assume "\<not> 0 < totalH"
    then have "totalH \<le> 0" by simp
    then have "maxW * totalH \<le> 0" using assms(1) by (simp add: mult_le_0_iff)
    then show False
      using assms(2) \<open>totalH \<le> 0\<close> by (simp add: MAX_SAFE_TOTAL_HEIGHT_def PIXEL_LIMIT_def)
  qed
  have A: "0 < maxW * totalH" using assms(1) H by simp
  have rH: "0 < real_of_int totalH" and rW: "0 < real_of_int maxW"
    and rA: "0 < real_of_int (maxW * totalH)"
    using H assms(1) A by simp_all
  have plan: "combinePlan maxW totalH
              = \<lparr>finalW = \<lfloor>real_of_int maxW * ?s\<rfloor>, finalH = \<lfloor>real_of_int totalH * ?s\<rfloor>,
                 scale = ?s\<rparr>"
    using assms(2) by (simp add: combinePlan_def Let_def)
  have sH: "0 < ?sH" using rH by (simp add: MAX_SAFE_TOTAL_HEIGHT_def)
  have sP: "0 < ?sP" using rA by (simp add: PIXEL_LIMIT_def)
  have pos: "0 < ?s" using sH sP by simp
  have lt1: "?s < 1"
  proof (cases "totalH > MAX_SAFE_TOTAL_HEIGHT")
    case True
    then have "?sH < 1" using rH by simp
    then show ?thesis by (simp only: min_less_iff_disj simp_thms)
  next
    case False
    then have "maxW * totalH > PIXEL_LIMIT" using assms(2) by simp
    then have "real_of_int PIXEL_LIMIT < real_of_int (maxW * totalH)"
      by (simp only: of_int_less_iff)
    then have "real_of_int PIXEL_LIMIT / real_of_int (maxW * totalH) < 1"
      using rA by (simp only: divide_less_eq_1_pos)
    then have "?sP < 1" by (simp only: real_sqrt_lt_1_iff)
    then show ?thesis by (simp only: min_less_iff_disj simp_thms)
  qed
  have "real_of_int totalH * ?s \<le> real_of_int totalH * ?sH"
    using rH by (intro mult_left_mono) simp_all
  also have "\<dots> = real_of_int MAX_SAFE_TOTAL_HEIGHT" using rH by simp
  finally have hb: "\<lfloor>real_of_int totalH * ?s\<rfloor> \<le> MAX_SAFE_TOTAL_HEIGHT"
    by (simp add: floor_le_iff)
  have sq: "?s * ?s \<le> ?sP * ?sP"
    using pos by (intro mult_mono) simp_all
  have "?sP * ?sP = real_of_int PIXEL_LIMIT / real_of_int (maxW * totalH)"
    using rA by (simp add: PIXEL_LIMIT_def)
  then have "real_of_int (maxW * totalH) * (?s * ?s) \<le> real_of_int PIXEL_LIMIT"
    using sq rA by (simp add: pos_le_divide_eq mult.commute)
  then have area: "(real_of_int maxW * ?s) * (real_of_int totalH * ?s) \<le> real_of_int PIXEL_LIMIT"
    by (simp add: algebra_simps)
  have fw: "0 \<le> \<lfloor>real_of_int maxW * ?s\<rfloor>" "real_of_int \<lfloor>real_of_int maxW * ?s\<rfloor> \<le> real_of_int maxW * ?s"
    using rW pos by (simp_all add: less_imp_le)
  have fh: "0 \<le> \<lfloor>real_of_int totalH * ?s\<rfloor>" "real_of_int \<lfloor>real_of_int totalH * ?s\<rfloor> \<le> real_of_int totalH * ?s"
    using rH pos by (simp_all add: less_imp_le)
  have "real_of_int (\<lfloor>real_of_int maxW * ?s\<rfloor> * \<lfloor>real_of_int totalH * ?s\<rfloor>)
        \<le> (real_of_int maxW * ?s) * (real_of_int totalH * ?s)"
    unfolding of_int_mult using fw fh by (intro mult_mono) simp_all
  then have "real_of_int (\<lfloor>real_of_int maxW * ?s\<rfloor> * \<lfloor>real_of_int totalH * ?s\<rfloor>)
             \<le> real_of_int PIXEL_LIMIT"
    using area by linarith
  then have ab: "\<lfloor>real_of_int maxW * ?s\<rfloor> * \<lfloor>real_of_int totalH * ?s\<rfloor> \<le> PIXEL_LIMIT"
    by (simp only: of_int_le_iff)
  have dr: "\<forall>y' w' h'. (y', w', h') \<in> set (combineDraw \<lfloor>real_of_int maxW * ?s\<rfloor> ?s 0 pages) \<longrightarrow>
              w' = \<lfloor>real_of_int maxW * ?s\<rfloor>
              \<and> (\<exists>w h. (w, h) \<in> set pages \<and> h' = \<lfloor>real_of_int h * ?s\<rfloor>)"
    using combineDraw_uniform by blast
  have hd: "pages \<noteq> [] \<and> maxW = fst (hd pages) \<and> totalH = sum_list (map snd pages) \<longrightarrow>
            handleDownloadCombine pages
              = Some (combinePlan maxW totalH,
                      combineDraw (finalW (combinePlan maxW totalH))
                        (scale (combinePlan maxW totalH)) 0 pages)"
    by (simp add: handleDownloadCombine_def Let_def)
  have "scale (combinePlan maxW totalH) = ?s"
    and "finalW (combinePlan maxW totalH) = \<lfloor>real_of_int maxW * ?s\<rfloor>"
    and "finalH (combinePlan maxW totalH) = \<lfloor>real_of_int totalH * ?s\<rfloor>"
    by (simp_all add: plan)
  then show ?thesis
    using pos lt1 hb ab dr hd by (simp only: simp_thms)
qed

lemma twoTallPages_plan:
  "combinePlan 2000 40000 = \<lparr>finalW = 1400, finalH = 28000, scale = 7 / 10\<rparr>"
  by (simp add: combinePlan_def MAX_SAFE_TOTAL_HEIGHT_def PIXEL_LIMIT_def Let_def)

theorem combine_downscale_witness:
  "(0::int) < 2000 \<and> (40000::int) > MAX_SAFE_TOTAL_HEIGHT
   \<and> [(2000, 20000), (2000, 20000)] \<noteq> ([] :: (int \<times> int) list)
   \<and> scale (combinePlan 2000 40000) = 7 / 10
   \<and> finalW (combinePlan 2000 40000) = 1400
   \<and> finalH (combinePlan 2000 40000) = 28000
   \<and> handleDownloadCombine [(2000, 20000), (2000, 20000)]
       = Some (\<lparr>finalW = 1400, finalH = 28000, scale = 7 / 10\<rparr>,
               [(0, 1400, 14000), (14000, 1400, 14000)])"
  using combine_downscale [of 2000 40000 "[(2000, 20000), (2000, 20000)]"]
  by (simp add: twoTallPages_plan MAX_SAFE_TOTAL_HEIGHT_def)

section \<open>Cancellation: verified properties\<close>


text \<open>With an encoder that never fails, the loop either encodes every page or ends at a
  read that saw the flag set.\<close>

lemma pageLoop_complete_or_cancelled:
  assumes "\<forall>cv. enc cv"
  shows "length (fst (pageLoop draw enc m q isC t bs acc)) = length acc + length bs
         \<or> isC (snd (pageLoop draw enc m q isC t bs acc))"
proof (induction bs arbitrary: t acc)
  case Nil
  then show ?case by simp
next
  case (Cons b bs)
  obtain cv t1 where d: "draw b (t + 1) = (cv, t1)" by (cases "draw b (t + 1)")
  let ?acc = "acc @ (case toBlob enc cv m q of Some blob \<Rightarrow> [blob] | None \<Rightarrow> [])"
  have l: "length ?acc = length acc + 1" using assms by (simp add: toBlob_def)
  show ?case
  proof (cases "isC t \<or> isC t1")
    case True
    then show ?thesis using d by auto
  next
    case False
    then have "pageLoop draw enc m q isC t (b # bs) acc
               = pageLoop draw enc m q isC (t1 + 1) bs ?acc"
      using d by simp
    then show ?thesis using Cons.IH [of "t1 + 1" ?acc] l by simp
  qed
qed









section \<open>Page compositor: verified properties\<close>

lemma concat_map_if:
  "concat (map (\<lambda>i. if P i then [g i] else []) xs) = map g (filter P xs)"
  by (induction xs) auto

lemma maskedCells_Nil: "maskedCells [] = []"
  by (simp add: maskedCells_def)

lemma maskedCells_Cons: "maskedCells (x # xs) = maskCellOf x @ maskedCells xs"
  by (simp add: maskedCells_def)

lemma tileCells_Nil: "tileCells [] = []"
  by (simp add: tileCells_def)

lemma tileCells_Cons: "tileCells (x # xs) = tileCellOf x @ tileCells xs"
  by (simp add: tileCells_def)

lemma maskedCells_append: "maskedCells (xs @ ys) = maskedCells xs @ maskedCells ys"
  by (simp add: maskedCells_def)

lemma maskedCells_concat: "maskedCells (concat xss) = concat (map maskedCells xss)"
  by (induction xss) (simp_all add: maskedCells_append, simp add: maskedCells_def)

lemma tileCells_append: "tileCells (xs @ ys) = tileCells xs @ tileCells ys"
  by (simp add: tileCells_def)

lemma tileCells_concat: "tileCells (concat xss) = concat (map tileCells xss)"
  by (induction xss) (simp_all add: tileCells_append, simp add: tileCells_def)

lemma upt_chunk:
  assumes "i < n"
  shows "[i..<n] = [i..<min (i + 4) n] @ [i + 4..<n]"
proof (cases "i + 4 \<le> n")
  case True
  then have "[i..<n] = [i..<i + 4] @ [i + 4..<n]"
    using upt_add_eq_append [of i "i + 4" "n - (i + 4)"] by simp
  then show ?thesis using True by (simp add: min_def)
next
  case False
  then show ?thesis by (simp add: min_def)
qed

text \<open>A render that is never cancelled draws every cell, in index order.\<close>

lemma drawLoop_never_cancelled:
  "\<forall>t. \<not> isC t \<Longrightarrow>
   fst (drawLoop f n isC i t acc) = acc @ concat (map f [i..<n])
   \<and> fst (snd (drawLoop f n isC i t acc))"
proof (induction f n isC i t acc rule: drawLoop.induct)
  case (1 f n isC i t acc)
  show ?case
  proof (cases "i < n")
    case True
    have nc: "\<not> isC t" "\<not> isC (t + 1)" using "1.prems" by simp_all
    have step: "drawLoop f n isC i t acc
                = drawLoop f n isC (i + 4) (t + 2) (acc @ concat (map f [i..<min (i + 4) n]))"
      using True nc by (subst drawLoop.simps) (simp add: Let_def del: drawLoop.simps)
    have IH: "fst (drawLoop f n isC (i + 4) (t + 2) (acc @ concat (map f [i..<min (i + 4) n])))
              = (acc @ concat (map f [i..<min (i + 4) n])) @ concat (map f [i + 4..<n])
              \<and> fst (snd (drawLoop f n isC (i + 4) (t + 2)
                             (acc @ concat (map f [i..<min (i + 4) n]))))"
      using "1.IH" [OF True nc(1) refl refl nc(2) "1.prems"] .
    have "concat (map f [i..<n])
          = concat (map f [i..<min (i + 4) n]) @ concat (map f [i + 4..<n])"
      by (subst upt_chunk [OF True]) simp
    then show ?thesis using IH by (simp only: step append_assoc simp_thms)
  next
    case False
    then show ?thesis by (subst (1 2) drawLoop.simps) simp
  qed
qed

lemma drawLoop_ops_never_cancelled:
  "\<forall>t. \<not> isC t \<Longrightarrow> fst (drawLoop f n isC i t acc) = acc @ concat (map f [i..<n])"
  using drawLoop_never_cancelled by blast

lemma drawLoop_completed_never_cancelled:
  "\<forall>t. \<not> isC t \<Longrightarrow> fst (snd (drawLoop f n isC i t acc)) = True"
  using drawLoop_never_cancelled by blast

lemma launchTasks_never_cancelled:
  "\<forall>t. \<not> isC t \<Longrightarrow> fst (launchTasks task isC t idxs acc) = acc @ concat (map task idxs)"
  by (induction idxs arbitrary: t acc) auto

lemma maskedCells_drawCell:
  "maskedCells (drawCell s cw ch off msk st dec images i)
   = (if currentNum (startNumber s) off i \<in> set msk \<and> (maskMode s = ModeLine \<or> st)
      then [cellOf (cols s) cw ch (gap s) i] else [])"
  by (cases "maskMode s")
     (auto simp: drawCell_def maskedCells_def Let_def split: option.splits prod.splits)

lemma tileCells_drawCell:
  "tileCells (drawCell s cw ch off msk st dec images i)
   = (if drawable (dec (images ! i)) then [cellOf (cols s) cw ch (gap s) i] else [])"
  by (cases "maskMode s")
     (auto simp: drawCell_def tileCells_def drawable_def Let_def
           split: option.splits prod.splits)

lemma maskedCells_drawTask_ikko:
  "maskedCells (drawTask_ikko k c w h g off start msk applyMask st dec urls i)
   = (if applyMask \<and> currentNum start off i \<in> set msk \<and> (maskMode k = ModeLine \<or> st)
      then [cellOf c w h g i] else [])"
  by (cases "maskMode k")
     (auto simp: drawTask_ikko_def maskedCells_def Let_def split: option.splits prod.splits)

lemma tileCells_drawTask_ikko:
  "tileCells (drawTask_ikko k c w h g off start msk applyMask st dec urls i) = [cellOf c w h g i]"
  by (cases "maskMode k")
     (auto simp: drawTask_ikko_def tileCells_def Let_def split: option.splits prod.splits)

lemma cellOf_row_col:
  assumes "0 < c"
  shows "cellOf c w h g i
         = \<lparr>cell_row = int (i div nat c), cell_col = int (i mod nat c),
            cell_x = int (i mod nat c) * (w + g), cell_y = int (i div nat c) * (h + g)\<rparr>"
proof -
  obtain q where c: "c = int q" using assms zero_le_imp_eq_int [of c] by auto
  have "int i smod int q = int i mod int q"
    by (rule smod_mod_positive) simp_all
  then show ?thesis
    by (simp add: cellOf_def Let_def c zdiv_int zmod_int)
qed

lemma drawAsync_ops_never_cancelled:
  assumes "\<forall>t. \<not> isC t"
  shows "ops (fst (drawAsync images s off msk st ov dec isC t))
         = FillBackground
             (cols s * drawCellW (cols s) (gap s) + (cols s - 1) * gap s)
             (\<lceil>(of_int (int (length images)) :: rat) / of_int (cols s)\<rceil>
                * drawCellH (drawCellW (cols s) (gap s)) (aspectRatio s)
              + (\<lceil>(of_int (int (length images)) :: rat) / of_int (cols s)\<rceil> - 1) * gap s)
           # concat (map (drawCell s (drawCellW (cols s) (gap s))
                            (drawCellH (drawCellW (cols s) (gap s)) (aspectRatio s))
                            off msk st dec images) [0..<length images])
           @ (if ov
              then [DrawOverlay
                      (cols s * drawCellW (cols s) (gap s) + (cols s - 1) * gap s)
                      (\<lceil>(of_int (int (length images)) :: rat) / of_int (cols s)\<rceil>
                         * drawCellH (drawCellW (cols s) (gap s)) (aspectRatio s)
                       + (\<lceil>(of_int (int (length images)) :: rat) / of_int (cols s)\<rceil> - 1)
                         * gap s)]
              else [])"
  by (simp add: drawAsync_def Let_def case_prod_beta drawLoop_ops_never_cancelled [OF assms]
                drawLoop_completed_never_cancelled [OF assms] del: drawLoop.simps)

lemma drawAsync_ikko_ops_never_cancelled:
  assumes "\<forall>t. \<not> isC t"
  shows "ops (fst (drawAsync_ikko urls rows c w h g off start msk k applyMask dec isC t))
         = FillBackground (c * w + (c - 1) * g) (rows * h + (rows - 1) * g)
           # concat (map (drawTask_ikko k c w h g off start msk applyMask
                            (maskMode k = ModeImage \<and> stickerImgUrl k \<noteq> None) dec urls)
                       [0..<length urls])
           @ (if overlayImgUrl k \<noteq> None
              then [DrawOverlay (c * w + (c - 1) * g) (rows * h + (rows - 1) * g)] else [])"
  by (simp add: drawAsync_ikko_def Let_def case_prod_beta launchTasks_never_cancelled [OF assms])

lemmas page_eval =
  drawAsync_def drawAsync_ikko_def drawCell_def drawTask_ikko_def cellOf_row_col currentNum_def
  drawCellW_def drawCellH_def MAX_CANVAS_DIMENSION_def MAX_SAFE_HEIGHT_def Let_def
  neverCancelled_def decodeAll_def sampleItem_def DEFAULT_SETTINGS_def
  DEFAULT_SETTINGS_ikko_def maskedCells_def tileCells_def fourImages_def
  maskTwoSettings_def maskTwoSettings_ikko_def numberToString_digit
  floor_rat_numeral floor_rat_one ceiling_rat_numeral ceiling_rat_one

lemma maskTwoPage_cells:
  "maskedCells (ops maskTwoPage) = [\<lparr>cell_row = 0, cell_col = 1, cell_x = 1500, cell_y = 0\<rparr>]"
  "tileCells (ops maskTwoPage)
   = [\<lparr>cell_row = 0, cell_col = 0, cell_x = 0, cell_y = 0\<rparr>,
      \<lparr>cell_row = 0, cell_col = 1, cell_x = 1500, cell_y = 0\<rparr>,
      \<lparr>cell_row = 1, cell_col = 0, cell_x = 0, cell_y = 2000\<rparr>,
      \<lparr>cell_row = 1, cell_col = 1, cell_x = 1500, cell_y = 2000\<rparr>]"
  by (simp_all add: maskTwoPage_def page_eval parse_single del: numberToString.simps)

lemma maskTwoPage_ikko_cells:
  "maskedCells (ops maskTwoPage_ikko)
   = [\<lparr>cell_row = 0, cell_col = 1, cell_x = 1500, cell_y = 0\<rparr>]"
  "tileCells (ops maskTwoPage_ikko)
   = [\<lparr>cell_row = 0, cell_col = 0, cell_x = 0, cell_y = 0\<rparr>,
      \<lparr>cell_row = 0, cell_col = 1, cell_x = 1500, cell_y = 0\<rparr>,
      \<lparr>cell_row = 1, cell_col = 0, cell_x = 0, cell_y = 2666\<rparr>,
      \<lparr>cell_row = 1, cell_col = 1, cell_x = 1500, cell_y = 2666\<rparr>]"
  by (simp_all add: maskTwoPage_ikko_def page_eval parse_single del: numberToString.simps)

lemma unmasked_pages:
  "maskedCells (ops stickerlessPage) = []" "maskedCells (ops unmaskedPage_ikko) = []"
  by (simp_all add: stickerlessPage_def unmaskedPage_ikko_def page_eval parse_single
               del: numberToString.simps)

text \<open>
  Claim C2, as the code has it. In every render that is not cancelled, the item at local
  index \<open>i\<close> of a page with \<open>c\<close> columns is drawn into the cell at row \<open>i div c\<close>, column
  \<open>i mod c\<close> (its image, or the error tile when it cannot be decoded; \<open>puzzle-ultimate\<close>
  draws nothing for a bitmap with a zero side). A cell receives the mask decoration exactly
  when \<open>startNumber + globalOffset + i\<close> is in the mask index set and the decoration can be
  drawn: the mask mode is the line mode or a sticker bitmap is loaded, and, in the ikko
  variant, the render was asked to apply masks (\<open>applyMask\<close>). In the scenario
  \<open>startNumber = 1, globalOffset = 0\<close>, mask set \<open>{2}\<close>, 4 images, 2 columns, line mode,
  exactly the cell of index 1 (row 0, column 1) is masked.
\<close>

theorem page_cells_and_masks:
  assumes "\<forall>t. \<not> isC t"
  shows "tileCells (ops (fst (drawAsync images s off msk st ov dec isC t)))
           = map (cellOf (cols s) (drawCellW (cols s) (gap s))
                    (drawCellH (drawCellW (cols s) (gap s)) (aspectRatio s)) (gap s))
               (filter (\<lambda>i. drawable (dec (images ! i))) [0..<length images])
       \<and> maskedCells (ops (fst (drawAsync images s off msk st ov dec isC t)))
           = map (cellOf (cols s) (drawCellW (cols s) (gap s))
                    (drawCellH (drawCellW (cols s) (gap s)) (aspectRatio s)) (gap s))
               (filter (\<lambda>i. currentNum (startNumber s) off i \<in> set msk
                             \<and> (maskMode s = ModeLine \<or> st)) [0..<length images])
       \<and> tileCells (ops (fst (drawAsync_ikko urls rows c w h g off' start msk' k applyMask
                                  dec' isC t')))
           = map (cellOf c w h g) [0..<length urls]
       \<and> maskedCells (ops (fst (drawAsync_ikko urls rows c w h g off' start msk' k applyMask
                                    dec' isC t')))
           = map (cellOf c w h g)
               (filter (\<lambda>i. applyMask \<and> currentNum start off' i \<in> set msk'
                             \<and> (maskMode k = ModeLine \<or> stickerImgUrl k \<noteq> None))
                  [0..<length urls])
       \<and> (0 < c \<longrightarrow>
            cellOf c w h g i
            = \<lparr>cell_row = int (i div nat c), cell_col = int (i mod nat c),
               cell_x = int (i mod nat c) * (w + g), cell_y = int (i div nat c) * (h + g)\<rparr>)
       \<and> maskedCells (ops maskTwoPage)
           = [\<lparr>cell_row = 0, cell_col = 1, cell_x = 1500, cell_y = 0\<rparr>]
       \<and> maskedCells (ops maskTwoPage_ikko)
           = [\<lparr>cell_row = 0, cell_col = 1, cell_x = 1500, cell_y = 0\<rparr>]"
proof -
  have a: "tileCells (ops (fst (drawAsync images s off msk st ov dec isC t)))
           = map (cellOf (cols s) (drawCellW (cols s) (gap s))
                    (drawCellH (drawCellW (cols s) (gap s)) (aspectRatio s)) (gap s))
               (filter (\<lambda>i. drawable (dec (images ! i))) [0..<length images])"
    by (simp add: drawAsync_ops_never_cancelled [OF assms] tileCells_append tileCells_concat
                  tileCells_Cons tileCells_Nil comp_def tileCells_drawCell concat_map_if)
  have b: "maskedCells (ops (fst (drawAsync images s off msk st ov dec isC t)))
           = map (cellOf (cols s) (drawCellW (cols s) (gap s))
                    (drawCellH (drawCellW (cols s) (gap s)) (aspectRatio s)) (gap s))
               (filter (\<lambda>i. currentNum (startNumber s) off i \<in> set msk
                             \<and> (maskMode s = ModeLine \<or> st)) [0..<length images])"
    by (simp add: drawAsync_ops_never_cancelled [OF assms] maskedCells_append
                  maskedCells_concat maskedCells_Cons maskedCells_Nil comp_def
                  maskedCells_drawCell concat_map_if)
  have c: "tileCells (ops (fst (drawAsync_ikko urls rows c w h g off' start msk' k applyMask
                                  dec' isC t')))
           = map (cellOf c w h g) [0..<length urls]"
    by (simp add: drawAsync_ikko_ops_never_cancelled [OF assms] tileCells_append
                  tileCells_concat tileCells_Cons tileCells_Nil comp_def
                  tileCells_drawTask_ikko)
  have d: "maskedCells (ops (fst (drawAsync_ikko urls rows c w h g off' start msk' k applyMask
                                    dec' isC t')))
           = map (cellOf c w h g)
               (filter (\<lambda>i. applyMask \<and> currentNum start off' i \<in> set msk'
                             \<and> (maskMode k = ModeLine \<or> stickerImgUrl k \<noteq> None))
                  [0..<length urls])"
    by (cases "maskMode k")
       (simp_all add: drawAsync_ikko_ops_never_cancelled [OF assms] maskedCells_append
                      maskedCells_concat maskedCells_Cons maskedCells_Nil comp_def
                      maskedCells_drawTask_ikko concat_map_if)
  have e: "0 < c \<longrightarrow>
            cellOf c w h g i
            = \<lparr>cell_row = int (i div nat c), cell_col = int (i mod nat c),
               cell_x = int (i mod nat c) * (w + g), cell_y = int (i div nat c) * (h + g)\<rparr>"
    using cellOf_row_col [of c w h g i] by (rule impI)
  show ?thesis
    using a b c d e maskTwoPage_cells(1) maskTwoPage_ikko_cells(1)
    by (intro conjI) assumption+
qed

theorem page_cells_and_masks_witness:
  "(\<forall>t. \<not> neverCancelled t) \<and> (0::int) < 2
   \<and> maskedCells (ops maskTwoPage)
       = map (cellOf 2 1500 2000 0) (filter (\<lambda>i. currentNum 1 0 i \<in> set [2]) [0..<4])
   \<and> map (cellOf 2 1500 2000 0) (filter (\<lambda>i. currentNum 1 0 i \<in> set [2]) [0..<4])
       = [\<lparr>cell_row = 0, cell_col = 1, cell_x = 1500, cell_y = 0\<rparr>]
   \<and> cellOf 2 1500 2000 0 1 = \<lparr>cell_row = 0, cell_col = 1, cell_x = 1500, cell_y = 0\<rparr>"
proof -
  have n: "\<forall>t. \<not> neverCancelled t" by (simp add: neverCancelled_def)
  have u: "[0..<4] = [0, 1, 2, 3]" by (simp add: numeral_eq_Suc)
  have s: "cols maskTwoSettings = 2" "gap maskTwoSettings = 0" "startNumber maskTwoSettings = 1"
    "maskMode maskTwoSettings = ModeLine" "aspectRatio maskTwoSettings = 3 / 4"
    "length fourImages = 4" "parseMaskIndices (maskIndices maskTwoSettings) = [2]"
    by (simp_all add: maskTwoSettings_def DEFAULT_SETTINGS_def fourImages_def parse_single)
  have w: "drawCellW 2 0 = 1500" "drawCellH 1500 (3 / 4) = 2000"
    by (simp_all add: drawCellW_def drawCellH_def MAX_CANVAS_DIMENSION_def)
  show ?thesis
    using page_cells_and_masks [OF n, where images = fourImages and s = maskTwoSettings
        and off = 0 and msk = "parseMaskIndices (maskIndices maskTwoSettings)"
        and st = False and ov = False and dec = decodeAll and t = 0
        and c = 2 and w = 1500 and h = 2000 and g = 0 and i = 1 and urls = "[]" and k = k0]
      n
    by (simp add: maskTwoPage_def s w u currentNum_def cellOf_row_col)
qed

theorem mask_iff_member_counterexample:
  "currentNum 1 0 1 \<in> set (parseMaskIndices (js ''2''))
   \<and> maskedCells (ops stickerlessPage) = []
   \<and> maskedCells (ops unmaskedPage_ikko) = []"
  by (simp add: unmasked_pages parse_single currentNum_def)

section \<open>Complete runs\<close>

text \<open>The pages a run plans are the slices of the partitioner, and a run that is never
  cancelled and whose pages all encode publishes one blob for each of them.\<close>

lemma plannedPages_partition:
  "plannedPages opType s images
   = length (partitionPages
               (if opType = Repack
                then repackIndices (startNumber s) (parseMaskIndices (maskIndices s))
                       (length images)
                else [0..<length images])
               (cols s * effectiveGroupRows s))"
  by (simp add: plannedPages_def partitionPages_def)

lemma complete_run_publishes_all:
  assumes "startGeneration opType s images st ov dec enc isC prev = Some r" and "images \<noteq> []"
    and "\<forall>cv. enc cv" and "\<forall>t. \<not> isC t"
  shows "generatedBlobs r = newBlobs r"
    and "length (generatedBlobs r) = plannedPages opType s images"
proof -
  let ?targets = "if opType = Repack
                  then repackIndices (startNumber s) (parseMaskIndices (maskIndices s))
                         (length images)
                  else [0..<length images]"
  let ?draw = "\<lambda>b t. drawAsync (map (\<lambda>i. images ! i)
                                  (batchSlice ?targets (cols s * effectiveGroupRows s) b))
                          s (int b * (cols s * effectiveGroupRows s))
                          (parseMaskIndices (maskIndices s)) st ov dec isC t"
  let ?loop = "pageLoop ?draw enc (fst (encodeParams s)) (snd (encodeParams s)) isC 0
                 [0..<plannedPages opType s images] []"
  have r: "r = \<lparr>generatedBlobs = (if \<not> isC (snd ?loop) then fst ?loop else []),
                newBlobs = fst ?loop\<rparr>"
    using assms(1,2)
    by (simp add: startGeneration_def plannedPages_def Let_def case_prod_beta
             split: if_splits)
  show g: "generatedBlobs r = newBlobs r" using assms(4) by (simp add: r)
  have "length (fst ?loop) = plannedPages opType s images"
    using pageLoop_complete_or_cancelled [OF assms(3), of ?draw "fst (encodeParams s)"
        "snd (encodeParams s)" isC 0 "[0..<plannedPages opType s images]" "[]"] assms(4)
    by simp
  then show "length (generatedBlobs r) = plannedPages opType s images"
    using g by (simp add: r)
qed

end
